theory Spec2Isabelle
  imports Main "HOL-Library.Sublist" "HOL-Library.Code_Target_Nat"
begin

section \<open>JavaScript strings\<close>

text \<open>
  The presentation layer is TypeScript. A JavaScript string is a sequence of UTF-16 code
  units; a code unit is modelled as a natural number (below 65536 for every string the
  program can hold). \<open>js\<close> turns an ASCII literal into its code units; the two
  non-ASCII literals of the source (an emoji and an em dash) are written by their code
  units.
\<close>

type_synonym jstring = "nat list"

definition js :: "string \<Rightarrow> jstring" where
  "js s = map of_char s"

text \<open>\<^verbatim>\<open>String.prototype.trim\<close> strips WhiteSpace and LineTerminator code points:
  TAB, LF, VT, FF, CR, SP, NBSP, U+1680, U+2000..U+200A, U+2028, U+2029, U+202F, U+205F,
  U+3000 and U+FEFF.\<close>

definition is_ws :: "nat \<Rightarrow> bool" where
  "is_ws c = (c = 9 \<or> c = 10 \<or> c = 11 \<or> c = 12 \<or> c = 13 \<or> c = 32 \<or> c = 160 \<or> c = 5760
     \<or> (8192 \<le> c \<and> c \<le> 8202) \<or> c = 8232 \<or> c = 8233 \<or> c = 8239 \<or> c = 8287
     \<or> c = 12288 \<or> c = 65279)"

definition trim :: "jstring \<Rightarrow> jstring" where
  "trim s = rev (dropWhile is_ws (rev (dropWhile is_ws s)))"

text \<open>\<^verbatim>\<open>s.split(sep)\<close> for a one-character separator: the empty string splits into
  one empty piece.\<close>

fun split_on :: "nat \<Rightarrow> jstring \<Rightarrow> jstring list" where
  "split_on sep [] = [[]]"
| "split_on sep (c # cs) =
     (let pieces = split_on sep cs
      in if c = sep then [] # pieces else (c # hd pieces) # tl pieces)"

text \<open>\<^verbatim>\<open>xs.join(sep)\<close>: the empty array joins to the empty string.\<close>

fun join :: "jstring \<Rightarrow> jstring list \<Rightarrow> jstring" where
  "join sep [] = []"
| "join sep [x] = x"
| "join sep (x # y # ys) = x @ sep @ join sep (y # ys)"

text \<open>\<^verbatim>\<open>s.startsWith(p)\<close> is \<^const>\<open>prefix\<close>, \<^verbatim>\<open>s.includes(p)\<close> is
  \<^const>\<open>sublist\<close> (a contiguous occurrence). \<^verbatim>\<open>s.replace(p, '')\<close> with a string
  pattern removes the first occurrence of \<open>p\<close>.\<close>

fun remove_first :: "jstring \<Rightarrow> jstring \<Rightarrow> jstring" where
  "remove_first pat [] = []"
| "remove_first pat (c # cs) =
     (if prefix pat (c # cs) then drop (length pat) (c # cs) else c # remove_first pat cs)"

text \<open>A template literal renders an integer as its decimal numeral, with a leading
  minus sign when negative. This is Number-to-string for integers of magnitude up to
  \<open>2^53\<close>; for larger ones JavaScript prints the shortest digits that read back as the
  same number and pads with zeros, which \<open>show_nat\<close> does not follow.\<close>

fun show_nat :: "nat \<Rightarrow> jstring" where
  "show_nat n = (if n < 10 then [48 + n] else show_nat (n div 10) @ [48 + n mod 10])"

declare show_nat.simps [simp del]

definition show_int :: "int \<Rightarrow> jstring" where
  "show_int i = (if i < 0 then 45 # show_nat (nat (- i)) else show_nat (nat i))"

text \<open>\<^verbatim>\<open>x || ""\<close> on an optional string: undefined and the empty string both give
  the empty string. \<^verbatim>\<open>x || []\<close> on an optional array likewise.\<close>

definition or_empty :: "'a list option \<Rightarrow> 'a list" where
  "or_empty x = (case x of None \<Rightarrow> [] | Some v \<Rightarrow> v)"

section \<open>The response shape (frontend/types.ts)\<close>

datatype TimelineStepType = Thought | ToolCall | ToolResult | MemoryUpdate | FinalAnswer

fun type_str :: "TimelineStepType \<Rightarrow> jstring" where
  "type_str Thought = js ''thought''"
| "type_str ToolCall = js ''tool_call''"
| "type_str ToolResult = js ''tool_result''"
| "type_str MemoryUpdate = js ''memory_update''"
| "type_str FinalAnswer = js ''final_answer''"

text \<open>The fields \<open>type\<close> and \<open>text\<close> are named \<open>type'\<close> and \<open>text'\<close> here. The
  optional fields are options; \<open>step_id\<close> and \<open>score\<close> are numbers, taken at integer
  values. \<open>by_failure_type\<close> holds the entries of the object in the order in which
  \<^verbatim>\<open>Object.entries\<close> lists them.\<close>

record TimelineStep =
  step_id :: int
  type' :: TimelineStepType
  label :: "jstring option"
  short :: "jstring option"
  text' :: "jstring option"
  tags :: "jstring list option"

record MRISummary =
  total_steps :: int
  flagged_steps :: int
  by_failure_type :: "(jstring \<times> int) list"

datatype RiskLevel = Low | Medium | High

record MRIRisk =
  score :: int
  level :: RiskLevel

record InternRunResponse =
  final_answer_md :: jstring
  summary :: MRISummary
  risk :: MRIRisk
  steps :: "TimelineStep list"
  report_markdown :: jstring
  critic_markdown :: jstring

text \<open>Reading a property of a response by name: an object of the declared shape has
  exactly the six declared properties, and any other name reads as undefined
  (\<open>None\<close>).\<close>

datatype js_value =
    VString jstring
  | VSummary MRISummary
  | VRisk MRIRisk
  | VSteps "TimelineStep list"

definition get_prop :: "InternRunResponse \<Rightarrow> string \<Rightarrow> js_value option" where
  "get_prop d k =
     (if k = ''final_answer_md'' then Some (VString (final_answer_md d))
      else if k = ''summary'' then Some (VSummary (summary d))
      else if k = ''risk'' then Some (VRisk (risk d))
      else if k = ''steps'' then Some (VSteps (steps d))
      else if k = ''report_markdown'' then Some (VString (report_markdown d))
      else if k = ''critic_markdown'' then Some (VString (critic_markdown d))
      else None)"

section \<open>The timeline markdown (ResultsContainer.tsx, generateTimelineMarkdown)\<close>

definition no_timeline :: jstring where
  "no_timeline = js ''_No structured timeline available for this run yet._''"

text \<open>The first four lines pushed; the title holds the emoji U+1F552 (a surrogate
  pair).\<close>

definition preamble :: "jstring list" where
  "preamble =
     [js ''## '' @ [55357, 56658] @ js '' Agent Timeline'',
      [],
      js ''Each block below is one step in the agent run: thoughts, tool calls, memory ops, and the final answer.'',
      js ''---'']"

text \<open>\<^verbatim>\<open>step.step_id || idx + 1\<close>: zero is falsy, so a zero id falls back to the
  1-based position. \<^verbatim>\<open>step.type || "step"\<close>. The label suffix is separated by an em
  dash (U+2014) between two spaces.\<close>

definition header_line :: "nat \<Rightarrow> TimelineStep \<Rightarrow> jstring" where
  "header_line idx step =
     (let stepId = (if step_id step = 0 then int idx + 1 else step_id step);
          kind = (if type_str (type' step) = [] then js ''step'' else type_str (type' step));
          label = or_empty (label step);
          header = js ''### Step '' @ show_int stepId @ js '': `'' @ kind @ js ''`''
      in if label \<noteq> [] then header @ [32, 8212, 32] @ label else header)"

definition quote_line :: "jstring \<Rightarrow> jstring" where
  "quote_line line = (if trim line \<noteq> [] then js ''> '' @ line else js ''>'')"

definition short_lines :: "TimelineStep \<Rightarrow> jstring list" where
  "short_lines step =
     (let short = or_empty (short step)
      in if short \<noteq> [] then [js ''**What this step does:** '' @ short, []] else [])"

definition text_lines :: "TimelineStep \<Rightarrow> jstring list" where
  "text_lines step =
     (let text = or_empty (text' step)
      in if text \<noteq> []
         then [js ''**Detail / excerpt:**'', []] @ map quote_line (split_on 10 text) @ [[]]
         else [])"

definition tags_lines :: "TimelineStep \<Rightarrow> jstring list" where
  "tags_lines step =
     (let tags = or_empty (tags step)
      in if length tags > 0
         then [js ''**MRI tags:** '' @ join (js '', '') (map (\<lambda>t. [96] @ t @ [96]) tags), []]
         else [])"

text \<open>Everything one iteration of the \<^verbatim>\<open>forEach\<close> pushes.\<close>

definition step_lines :: "nat \<Rightarrow> TimelineStep \<Rightarrow> jstring list" where
  "step_lines idx step =
     [header_line idx step, []] @ short_lines step @ text_lines step @ tags_lines step
       @ [js ''---'']"

definition timeline_lines :: "TimelineStep list \<Rightarrow> jstring list" where
  "timeline_lines ss =
     preamble @ concat (map (\<lambda>(idx, step). step_lines idx step) (enumerate 0 ss))"

text \<open>The argument may be undefined (\<open>None\<close>): the source guards with
  \<^verbatim>\<open>!steps || steps.length === 0\<close>.\<close>

definition generateTimelineMarkdown :: "TimelineStep list option \<Rightarrow> jstring" where
  "generateTimelineMarkdown arg =
     (case arg of
        None \<Rightarrow> no_timeline
      | Some ss \<Rightarrow> if length ss = 0 then no_timeline else join [10] (timeline_lines ss))"

section \<open>The markdown viewer (MarkdownViewer.tsx)\<close>

text \<open>What one line renders to. \<open>ListItem\<close>, \<open>NumberedItem\<close> and \<open>Paragraph\<close> carry the
  text that the source hands to its inline bold splitter; \<open>TableRow\<close> carries the
  class name of the row and its cells. A line that renders to \<^verbatim>\<open>null\<close> is \<open>None\<close>.\<close>

datatype element =
    H3 jstring
  | H2 jstring
  | Hr
  | Blockquote jstring
  | ListItem jstring
  | NumberedItem jstring jstring
  | TableRow jstring "jstring list"
  | Spacer
  | Paragraph jstring

definition is_digit :: "nat \<Rightarrow> bool" where
  "is_digit c = (48 \<le> c \<and> c \<le> 57)"

text \<open>The test \<^verbatim>\<open>/^\d+\./\<close>: one or more digits, then a full stop.\<close>

definition numbered :: "jstring \<Rightarrow> bool" where
  "numbered line = (takeWhile is_digit line \<noteq> [] \<and> prefix [46] (dropWhile is_digit line))"

definition render_line :: "jstring list \<Rightarrow> nat \<Rightarrow> jstring \<Rightarrow> element option" where
  "render_line lines idx line =
     (if prefix (js ''## '') line then Some (H3 (remove_first (js ''## '') line))
      else if prefix (js ''# '') line then Some (H2 (remove_first (js ''# '') line))
      else if trim line = js ''---'' then Some Hr
      else if prefix (js ''> '') line then Some (Blockquote (remove_first (js ''> '') line))
      else if prefix (js ''- '') line then Some (ListItem (remove_first (js ''- '') line))
      else if numbered line then
        Some (NumberedItem (hd (split_on 46 line)) (trim (join [46] (tl (split_on 46 line)))))
      else if prefix (js ''|'') line then
        (let cols = filter (\<lambda>c. trim c \<noteq> []) (split_on 124 line)
         in if sublist (js ''---'') line then None
            else
              let isHeader = (idx + 1 < length lines \<and> sublist (js ''---'') (lines ! (idx + 1)))
              in Some (TableRow
                   (js ''grid grid-cols-3 gap-6 py-3 text-[14px] '' @
                     (if isHeader then js ''border-b border-gray-200 font-medium text-gray-900''
                      else js ''text-gray-600 border-b border-gray-50''))
                   cols))
      else if trim line = [] then Some Spacer
      else Some (Paragraph line))"

definition MarkdownViewer :: "jstring \<Rightarrow> element option list" where
  "MarkdownViewer content =
     (let lines = split_on 10 content
      in map (\<lambda>(idx, line). render_line lines idx line) (enumerate 0 lines))"

section \<open>The timeline view (tabs/TimelineTab.tsx)\<close>

datatype Severity = SevHigh | SevMedium | SevLow

text \<open>The object literal \<open>tagSeverity\<close>, in its order.\<close>

definition tagSeverity :: "(jstring \<times> Severity) list" where
  "tagSeverity =
     [(js ''hallucination_risk'', SevHigh),
      (js ''tool_misuse'', SevHigh),
      (js ''tool_error'', SevHigh),
      (js ''overconfident_no_citation'', SevHigh),
      (js ''speculative_metrics'', SevMedium),
      (js ''weak_grounding'', SevMedium),
      (js ''memory_drift'', SevMedium),
      (js ''apology'', SevLow)]"

text \<open>\<^verbatim>\<open>tagSeverity[tag]\<close> reads an own property, else one inherited from
  \<^verbatim>\<open>Object.prototype\<close> (a function or object, never a severity string), else
  undefined.\<close>

datatype prop_value = Undefined | Inherited | Str Severity

definition object_prototype_keys :: "jstring list" where
  "object_prototype_keys =
     map js [''constructor'', ''hasOwnProperty'', ''isPrototypeOf'', ''propertyIsEnumerable'',
       ''toLocaleString'', ''toString'', ''valueOf'', ''__proto__'', ''__defineGetter__'',
       ''__defineSetter__'', ''__lookupGetter__'', ''__lookupSetter__'']"

definition tagSeverity_get :: "jstring \<Rightarrow> prop_value" where
  "tagSeverity_get tag =
     (case map_of tagSeverity tag of
        Some s \<Rightarrow> Str s
      | None \<Rightarrow> if tag \<in> set object_prototype_keys then Inherited else Undefined)"

definition classes_high :: jstring where
  "classes_high = js ''bg-rose-50 text-rose-700 border border-rose-100''"

definition classes_medium :: jstring where
  "classes_medium = js ''bg-amber-50 text-amber-700 border border-amber-100''"

definition classes_low :: jstring where
  "classes_low = js ''bg-slate-50 text-slate-700 border border-slate-200''"

text \<open>\<^verbatim>\<open>tagSeverity[tag] ?? "low"\<close> replaces only undefined.\<close>

definition getTagClasses :: "jstring \<Rightarrow> jstring" where
  "getTagClasses tag =
     (let sev = (case tagSeverity_get tag of Undefined \<Rightarrow> Str SevLow | v \<Rightarrow> v)
      in if sev = Str SevHigh then classes_high
         else if sev = Str SevMedium then classes_medium
         else classes_low)"

definition shortText :: "TimelineStep \<Rightarrow> jstring" where
  "shortText step =
     (case short step of
        Some s \<Rightarrow> if s \<noteq> [] \<and> length (trim s) > 0 then s else js ''short summary''
      | None \<Rightarrow> js ''short summary'')"

definition bodyText :: "TimelineStep \<Rightarrow> jstring" where
  "bodyText step =
     (case text' step of
        Some t \<Rightarrow> if t \<noteq> [] \<and> length (trim t) > 0 then t
                 else js ''No detailed trace captured for this step.''
      | None \<Rightarrow> js ''No detailed trace captured for this step.'')"

text \<open>\<^verbatim>\<open>s.replace(/_/g, " ")\<close>.\<close>

definition underscores_to_spaces :: "jstring \<Rightarrow> jstring" where
  "underscores_to_spaces s = map (\<lambda>c. if c = 95 then 32 else c) s"

text \<open>What a step card shows: the id, the type, the label chip (when the label is a
  non-empty string), the summary line, one chip per tag (its classes and its text), and
  the body, only while the card is expanded.\<close>

record step_card =
  card_step_id :: int
  card_type :: jstring
  card_label :: "jstring option"
  card_short :: jstring
  card_chips :: "(jstring \<times> jstring) list"
  card_body :: "jstring option"
  card_isLast :: bool

definition StepCard :: "TimelineStep \<Rightarrow> bool \<Rightarrow> bool \<Rightarrow> step_card" where
  "StepCard step isLast expanded =
     \<lparr> card_step_id = step_id step,
       card_type = type_str (type' step),
       card_label = (if or_empty (label step) \<noteq> [] then label step else None),
       card_short = shortText step,
       card_chips = map (\<lambda>tag. (getTagClasses tag, underscores_to_spaces tag))
                      (or_empty (tags step)),
       card_body = (if expanded then Some (bodyText step) else None),
       card_isLast = isLast \<rparr>"

datatype timeline_view = NoTrace jstring | Trace "step_card list"

text \<open>The cards start collapsed; \<open>expanded\<close> gives the state of the card at each
  index.\<close>

definition TimelineTab :: "(nat \<Rightarrow> bool) \<Rightarrow> TimelineStep list option \<Rightarrow> timeline_view" where
  "TimelineTab expanded arg =
     (case arg of
        None \<Rightarrow> NoTrace (js ''No execution trace available for this run yet.'')
      | Some ss \<Rightarrow>
          if length ss = 0 then NoTrace (js ''No execution trace available for this run yet.'')
          else Trace (map (\<lambda>(index, step). StepCard step (index = length ss - 1) (expanded index))
                        (enumerate 0 ss)))"

section \<open>The score view (ResultsContainer.tsx, MRIScoreTab)\<close>

definition riskColor :: "int \<Rightarrow> jstring" where
  "riskColor sc = (if sc < 30 then js ''#10B981'' else if sc < 70 then js ''#F59E0B'' else js ''#EF4444'')"

text \<open>A number is an IEEE binary64 value, and \<^verbatim>\<open>100 - score\<close> is the binary64 value
  nearest to the exact difference (ties to the even significand). The score is taken at
  integer values. Up to \<open>2^53 = 9007199254740992\<close> every integer is a binary64 value; from
  there on only the multiples of \<open>spacing\<close> are, and it doubles with every power of two.
  A difference of 100 and a finite score never overflows.\<close>

function spacing :: "nat \<Rightarrow> nat" where
  "spacing n = (if n < 9007199254740992 then 1 else 2 * spacing (n div 2))"
  by pat_completeness auto
termination
  by (relation "measure (\<lambda>n. n)") auto

declare spacing.simps [simp del]

definition round_to :: "nat \<Rightarrow> nat \<Rightarrow> nat" where
  "round_to q n =
     (let k = n div q; r = n mod q
      in if 2 * r < q then k * q
         else if q < 2 * r then (k + 1) * q
         else if even k then k * q else (k + 1) * q)"

definition round_double :: "int \<Rightarrow> int" where
  "round_double x =
     (if x < 0 then - int (round_to (spacing (nat (- x))) (nat (- x)))
      else int (round_to (spacing (nat x)) (nat x)))"

definition js_minus :: "int \<Rightarrow> int \<Rightarrow> int" where
  "js_minus a b = round_double (a - b)"

definition chartData :: "int \<Rightarrow> (jstring \<times> int) list" where
  "chartData sc = [(js ''Risk'', sc), (js ''Safe'', js_minus 100 sc)]"

definition badge_classes :: "RiskLevel \<Rightarrow> jstring" where
  "badge_classes l =
     (if l = Low then js ''bg-green-100 text-green-700''
      else if l = Medium then js ''bg-amber-100 text-amber-700''
      else js ''bg-red-100 text-red-700'')"

record score_view =
  ring_fill :: jstring
  ring_data :: "(jstring \<times> int) list"
  shown_score :: int
  badge :: "jstring \<times> RiskLevel"
  shown_total :: int
  shown_flagged :: int
  failure_modes :: "(jstring \<times> int) list"

definition MRIScoreTab :: "InternRunResponse \<Rightarrow> score_view" where
  "MRIScoreTab data =
     (let sc = score (risk data)
      in \<lparr> ring_fill = riskColor sc,
           ring_data = chartData sc,
           shown_score = sc,
           badge = (badge_classes (level (risk data)), level (risk data)),
           shown_total = total_steps (summary data),
           shown_flagged = flagged_steps (summary data),
           failure_modes = map (\<lambda>(key, count). (underscores_to_spaces key, count))
                             (by_failure_type (summary data)) \<rparr>)"

section \<open>The result view (ResultsContainer.tsx)\<close>

text \<open>The timeline and the log view read \<^verbatim>\<open>data.timeline_steps\<close>.\<close>

definition timeline_steps :: "InternRunResponse \<Rightarrow> TimelineStep list option" where
  "timeline_steps data =
     (case get_prop data ''timeline_steps'' of Some (VSteps ss) \<Rightarrow> Some ss | _ \<Rightarrow> None)"

datatype tab_content =
    ResponseTab "element option list"
  | ScoreTab score_view
  | TimelineView timeline_view
  | LogView "element option list"
  | ReportTab "element option list"
  | FeedbackTab "element option list"

text \<open>The content under the tab bar, for the active tab (0 to 5); nothing at all when
  there is no response.\<close>

definition ResultsContainer ::
  "InternRunResponse option \<Rightarrow> nat \<Rightarrow> (nat \<Rightarrow> bool) \<Rightarrow> tab_content option" where
  "ResultsContainer data activeTab expanded =
     (case data of
        None \<Rightarrow> None
      | Some d \<Rightarrow>
          if activeTab = 0 then Some (ResponseTab (MarkdownViewer (final_answer_md d)))
          else if activeTab = 1 then Some (ScoreTab (MRIScoreTab d))
          else if activeTab = 2 then Some (TimelineView (TimelineTab expanded (timeline_steps d)))
          else if activeTab = 3 then
            Some (LogView (MarkdownViewer (generateTimelineMarkdown (timeline_steps d))))
          else if activeTab = 4 then Some (ReportTab (MarkdownViewer (report_markdown d)))
          else if activeTab = 5 then Some (FeedbackTab (MarkdownViewer (critic_markdown d)))
          else None)"

section \<open>Example inputs\<close>

text \<open>A tool call with every field set, a thought with no optional field and the id
  0, and a response of the declared shape that carries the tool call.\<close>

definition example_step :: TimelineStep where
  "example_step =
     \<lparr> step_id = 7, type' = ToolCall, label = Some (js ''search''),
       short = Some (js ''Look it up''),
       text' = Some (js ''first line'' @ [10] @ js ''  '' @ [10] @ js ''third line''),
       tags = Some [js ''tool_misuse'', js ''apology''] \<rparr>"

definition bare_step :: TimelineStep where
  "bare_step =
     \<lparr> step_id = 0, type' = Thought, label = None, short = None, text' = None,
       tags = None \<rparr>"

definition example_response :: InternRunResponse where
  "example_response =
     \<lparr> final_answer_md = js ''Done.'',
       summary = \<lparr> total_steps = 1, flagged_steps = 1,
                   by_failure_type = [(js ''tool_misuse'', 1), (js ''apology'', 1)] \<rparr>,
       risk = \<lparr> score = 40, level = Medium \<rparr>,
       steps = [example_step],
       report_markdown = js ''# Report'',
       critic_markdown = js ''No feedback available.'' \<rparr>"

text \<open>A step whose summary is whitespace-only and whose text is empty, a step whose
  label holds a line feed followed by what reads as a heading, and a small table.\<close>

definition blank_step :: TimelineStep where
  "blank_step =
     \<lparr> step_id = 3, type' = FinalAnswer, label = Some [], short = Some (js ''  '' @ [9, 160]),
       text' = Some [], tags = Some [] \<rparr>"

definition injected_step :: TimelineStep where
  "injected_step =
     \<lparr> step_id = 1, type' = Thought,
       label = Some (js ''x'' @ [10] @ js ''### Step 9: `thought`''),
       short = None, text' = None, tags = None \<rparr>"

definition table_example :: jstring where
  "table_example =
     js ''| Tag | Count |'' @ [10] @ js ''|---|---|'' @ [10] @ js ''| a |  | b | c | d |''"

section \<open>The level banding of the specification\<close>

text \<open>The banding as the specification words it: below 30 is Low, from 30 and below
  70 is Medium, from 70 is High. The ring of the score view is green, amber or red; these
  are the hues of the Low, Medium and High badge.\<close>

definition spec_level :: "int \<Rightarrow> RiskLevel" where
  "spec_level sc = (if sc < 30 then Low else if sc < 70 then Medium else High)"

definition level_color :: "RiskLevel \<Rightarrow> jstring" where
  "level_color l =
     (case l of Low \<Rightarrow> js ''#10B981'' | Medium \<Rightarrow> js ''#F59E0B'' | High \<Rightarrow> js ''#EF4444'')"

section \<open>Notions for the claims about the timeline markdown\<close>

text \<open>A step has one-line fields when its label, its summary and its tags hold no line
  feed. A step heading is a line that starts with "### Step "; a rule is a line the viewer
  takes for a horizontal rule.\<close>

definition one_line_fields :: "TimelineStep \<Rightarrow> bool" where
  "one_line_fields step =
     (10 \<notin> set (or_empty (label step)) \<and> 10 \<notin> set (or_empty (short step))
      \<and> list_all (\<lambda>t. 10 \<notin> set t) (or_empty (tags step)))"

definition is_step_heading :: "jstring \<Rightarrow> bool" where
  "is_step_heading l = prefix (js ''### Step '') l"

definition is_rule :: "jstring \<Rightarrow> bool" where
  "is_rule l = (trim l = js ''---'')"



section \<open>Facts about strings\<close>

lemma split_on_Cons:
  "split_on sep (c # cs) =
     (if c = sep then [] # split_on sep cs
      else (c # hd (split_on sep cs)) # tl (split_on sep cs))"
  by (simp add: Let_def)

declare split_on.simps(2) [simp del]

declare split_on_Cons [simp]

lemma split_on_nonempty: "split_on sep s \<noteq> []"
  by (induction s) auto

lemma all_ws_dropWhile: "(\<forall>c\<in>set (dropWhile is_ws s). is_ws c) \<longleftrightarrow> (\<forall>c\<in>set s. is_ws c)"
proof
  assume a: "\<forall>c\<in>set (dropWhile is_ws s). is_ws c"
  have "dropWhile is_ws s = []"
  proof (rule ccontr)
    assume n: "dropWhile is_ws s \<noteq> []"
    then have "\<not> is_ws (hd (dropWhile is_ws s))" by (rule hd_dropWhile)
    moreover have "hd (dropWhile is_ws s) \<in> set (dropWhile is_ws s)" using n by simp
    ultimately show False using a by blast
  qed
  then show "\<forall>c\<in>set s. is_ws c" by (simp add: dropWhile_eq_Nil_conv)
next
  assume "\<forall>c\<in>set s. is_ws c"
  then show "\<forall>c\<in>set (dropWhile is_ws s). is_ws c" by (meson set_dropWhileD)
qed

lemma trim_empty_iff: "trim s = [] \<longleftrightarrow> list_all is_ws s"
  by (simp add: trim_def dropWhile_eq_Nil_conv all_ws_dropWhile list_all_iff)

lemma trim_Cons_nonws:
  assumes "\<not> is_ws c"
  shows "\<exists>r. trim (c # cs) = c # r"
proof -
  have t: "trim (c # cs) = rev (dropWhile is_ws (rev cs @ [c]))"
    using assms by (simp add: trim_def)
  show ?thesis
  proof (cases "\<forall>x\<in>set (rev cs). is_ws x")
    case True
    then have "dropWhile is_ws (rev cs @ [c]) = [c]"
      using assms by (simp add: dropWhile_append)
    then show ?thesis by (simp add: t)
  next
    case False
    then have "dropWhile is_ws (rev cs @ [c]) = dropWhile is_ws (rev cs) @ [c]"
      by (simp add: dropWhile_append)
    then show ?thesis by (simp add: t)
  qed
qed

text \<open>An equation for evaluating \<open>split_on\<close> on a literal in linear time.\<close>

lemma split_on_Cons_case:
  "split_on sep (c # cs) =
     (case split_on sep cs of [] \<Rightarrow> [] | l # ls \<Rightarrow> if c = sep then [] # l # ls else (c # l) # ls)"
  using split_on_nonempty [of sep cs] by (cases "split_on sep cs") auto

lemma split_on_append_sep:
  "split_on sep (a @ sep # b) = split_on sep a @ split_on sep b"
proof (induction a)
  case Nil
  then show ?case by simp
next
  case (Cons x a)
  have ne: "split_on sep a \<noteq> []" by (rule split_on_nonempty)
  show ?case
  proof (cases "x = sep")
    case True
    then show ?thesis using Cons.IH by simp
  next
    case False
    then show ?thesis using Cons.IH ne by simp
  qed
qed

lemma split_on_join:
  "ls \<noteq> [] \<Longrightarrow> split_on sep (join [sep] ls) = concat (map (split_on sep) ls)"
proof (induction ls)
  case Nil
  then show ?case by simp
next
  case (Cons x xs)
  show ?case
  proof (cases xs)
    case Nil
    then show ?thesis by simp
  next
    case (Cons y ys)
    then have "join [sep] (x # xs) = x @ sep # join [sep] xs" by simp
    moreover have "split_on sep (join [sep] xs) = concat (map (split_on sep) xs)"
      using Cons Cons.IH by simp
    ultimately show ?thesis by (simp add: split_on_append_sep)
  qed
qed

lemma split_on_no_sep: "sep \<notin> set s \<Longrightarrow> split_on sep s = [s]"
  by (induction s) auto

lemma split_on_pieces: "l \<in> set (split_on sep s) \<Longrightarrow> sep \<notin> set l"
proof (induction s arbitrary: l)
  case Nil
  then show ?case by simp
next
  case (Cons c s)
  have ne: "split_on sep s \<noteq> []" by (rule split_on_nonempty)
  show ?case
  proof (cases "c = sep")
    case True
    then show ?thesis using Cons by auto
  next
    case False
    from Cons.prems False have "l = c # hd (split_on sep s) \<or> l \<in> set (tl (split_on sep s))"
      by simp
    then show ?thesis
    proof
      assume "l = c # hd (split_on sep s)"
      moreover have "sep \<notin> set (hd (split_on sep s))"
        using Cons.IH ne by simp
      ultimately show ?thesis using False by simp
    next
      assume "l \<in> set (tl (split_on sep s))"
      then have "l \<in> set (split_on sep s)" by (meson list.set_sel(2) ne)
      then show ?thesis by (rule Cons.IH)
    qed
  qed
qed

lemma concat_split_single:
  "\<forall>l\<in>set ls. sep \<notin> set l \<Longrightarrow> concat (map (split_on sep) ls) = ls"
  by (induction ls) (simp_all add: split_on_no_sep)

section \<open>The empty timeline\<close>

lemma markdown_starts_with_title:
  "ss \<noteq> [] \<Longrightarrow> prefix (js ''## '') (generateTimelineMarkdown (Some ss))"
  by (simp add: generateTimelineMarkdown_def timeline_lines_def preamble_def js_def)

text \<open>Claim C8. For the empty step sequence the generator returns the fixed sentence
  "No structured timeline available for this run yet." (a non-empty, single-line
  string), and a step sequence gets that sentence only if it is empty.\<close>

theorem empty_timeline_sentence:
  "generateTimelineMarkdown (Some []) = no_timeline
   \<and> no_timeline \<noteq> [] \<and> 10 \<notin> set no_timeline
   \<and> (generateTimelineMarkdown (Some ss) = no_timeline \<longleftrightarrow> ss = [])"
proof -
  have a: "generateTimelineMarkdown (Some []) = no_timeline"
    by (simp add: generateTimelineMarkdown_def)
  have b: "no_timeline \<noteq> []" "10 \<notin> set no_timeline"
    by (simp_all add: no_timeline_def js_def)
  have c: "generateTimelineMarkdown (Some ss) \<noteq> no_timeline" if "ss \<noteq> []"
  proof -
    have "prefix (js ''## '') (generateTimelineMarkdown (Some ss))"
      using that by (rule markdown_starts_with_title)
    moreover have "\<not> prefix (js ''## '') no_timeline"
      by (simp add: no_timeline_def js_def)
    ultimately show ?thesis by auto
  qed
  from a b c show ?thesis by auto
qed

theorem empty_timeline_sentence_witness:
  "generateTimelineMarkdown (Some [example_step]) \<noteq> no_timeline
   \<and> generateTimelineMarkdown (Some []) = no_timeline"
  using empty_timeline_sentence [of "[example_step]"] by simp

section \<open>The severity registry\<close>

text \<open>Claim C4. The registry binds tool_error, tool_misuse, hallucination_risk and
  overconfident_no_citation to high, weak_grounding, speculative_metrics and memory_drift
  to medium, and apology to low; it has these eight keys, each once. A tag chip gets the
  classes of its tag's severity, and a tag outside the registry (also a name that
  \<^verbatim>\<open>Object.prototype\<close> holds) gets the classes of severity low.\<close>

theorem severity_registry:
  "map_of tagSeverity (js ''tool_error'') = Some SevHigh
   \<and> map_of tagSeverity (js ''tool_misuse'') = Some SevHigh
   \<and> map_of tagSeverity (js ''hallucination_risk'') = Some SevHigh
   \<and> map_of tagSeverity (js ''overconfident_no_citation'') = Some SevHigh
   \<and> map_of tagSeverity (js ''weak_grounding'') = Some SevMedium
   \<and> map_of tagSeverity (js ''speculative_metrics'') = Some SevMedium
   \<and> map_of tagSeverity (js ''memory_drift'') = Some SevMedium
   \<and> map_of tagSeverity (js ''apology'') = Some SevLow
   \<and> length tagSeverity = 8 \<and> distinct (map fst tagSeverity)
   \<and> getTagClasses t =
        (case map_of tagSeverity t of
           Some SevHigh \<Rightarrow> classes_high
         | Some SevMedium \<Rightarrow> classes_medium
         | Some SevLow \<Rightarrow> classes_low
         | None \<Rightarrow> classes_low)
   \<and> classes_high \<noteq> classes_low \<and> classes_medium \<noteq> classes_low
   \<and> classes_high \<noteq> classes_medium"
proof -
  have reg: "map_of tagSeverity (js ''tool_error'') = Some SevHigh"
    "map_of tagSeverity (js ''tool_misuse'') = Some SevHigh"
    "map_of tagSeverity (js ''hallucination_risk'') = Some SevHigh"
    "map_of tagSeverity (js ''overconfident_no_citation'') = Some SevHigh"
    "map_of tagSeverity (js ''weak_grounding'') = Some SevMedium"
    "map_of tagSeverity (js ''speculative_metrics'') = Some SevMedium"
    "map_of tagSeverity (js ''memory_drift'') = Some SevMedium"
    "map_of tagSeverity (js ''apology'') = Some SevLow"
    by (simp_all add: tagSeverity_def js_def)
  have shape: "length tagSeverity = 8" "distinct (map fst tagSeverity)"
    by (simp_all add: tagSeverity_def js_def)
  have cls: "getTagClasses t =
        (case map_of tagSeverity t of
           Some SevHigh \<Rightarrow> classes_high
         | Some SevMedium \<Rightarrow> classes_medium
         | Some SevLow \<Rightarrow> classes_low
         | None \<Rightarrow> classes_low)"
    by (simp add: getTagClasses_def tagSeverity_get_def split: option.splits Severity.splits)
  have diff: "classes_high \<noteq> classes_low" "classes_medium \<noteq> classes_low"
    "classes_high \<noteq> classes_medium"
    by (simp_all add: classes_high_def classes_medium_def classes_low_def js_def)
  from reg shape cls diff show ?thesis by blast
qed

theorem severity_registry_witness:
  "getTagClasses (js ''constructor'') = classes_low
   \<and> getTagClasses (js ''brand_new_tag'') = classes_low
   \<and> getTagClasses (js ''memory_drift'') = classes_medium"
proof -
  have a: "map_of tagSeverity (js ''constructor'') = None"
    "map_of tagSeverity (js ''brand_new_tag'') = None"
    by (simp_all add: tagSeverity_def js_def)
  have b: "map_of tagSeverity (js ''memory_drift'') = Some SevMedium"
    using severity_registry [of "[]"] by blast
  have "getTagClasses (js ''constructor'') = classes_low"
    using severity_registry [of "js ''constructor''"] by (simp only: a option.case)
  moreover have "getTagClasses (js ''brand_new_tag'') = classes_low"
    using severity_registry [of "js ''brand_new_tag''"] by (simp only: a option.case)
  moreover have "getTagClasses (js ''memory_drift'') = classes_medium"
    using severity_registry [of "js ''memory_drift''"] by (simp only: b option.case Severity.case)
  ultimately show ?thesis by blast
qed

section \<open>The score view\<close>

text \<open>Claim C5. The ring colour of the score view follows the banding of the
  specification: for every integer score it is the colour of Low exactly when the score
  is below 30, of Medium exactly when the score is from 30 and below 70, and of High
  exactly when the score is from 70.\<close>

theorem score_banding:
  "riskColor sc = level_color (spec_level sc)
   \<and> (riskColor sc = level_color Low \<longleftrightarrow> sc < 30)
   \<and> (riskColor sc = level_color Medium \<longleftrightarrow> 30 \<le> sc \<and> sc < 70)
   \<and> (riskColor sc = level_color High \<longleftrightarrow> 70 \<le> sc)
   \<and> ring_fill (MRIScoreTab d) = riskColor (score (risk d))"
  by (simp add: riskColor_def level_color_def spec_level_def MRIScoreTab_def Let_def js_def)

theorem score_banding_witness:
  "riskColor 29 = level_color Low \<and> riskColor 30 = level_color Medium
   \<and> riskColor 69 = level_color Medium \<and> riskColor 70 = level_color High
   \<and> ring_fill (MRIScoreTab example_response) = level_color Medium"
proof -
  have a: "riskColor 29 = level_color Low"
    using score_banding [of 29 example_response, THEN conjunct2, THEN conjunct1] by simp
  have b: "riskColor 30 = level_color Medium"
    using score_banding [of 30 example_response, THEN conjunct2, THEN conjunct2, THEN conjunct1]
    by simp
  have c: "riskColor 69 = level_color Medium"
    using score_banding [of 69 example_response, THEN conjunct2, THEN conjunct2, THEN conjunct1]
    by simp
  have d: "riskColor 70 = level_color High"
    using score_banding [of 70 example_response, THEN conjunct2, THEN conjunct2, THEN conjunct2,
        THEN conjunct1]
    by simp
  have s: "score (risk example_response) = 40"
    by (simp add: example_response_def)
  have "riskColor 40 = level_color Medium"
    using score_banding [of 40 example_response, THEN conjunct2, THEN conjunct2, THEN conjunct1]
    by simp
  then have e: "ring_fill (MRIScoreTab example_response) = level_color Medium"
    using score_banding [of 40 example_response, THEN conjunct2, THEN conjunct2, THEN conjunct2,
        THEN conjunct2]
    by (simp only: s)
  from a b c d e show ?thesis by blast
qed

subsection \<open>Binary64 subtraction\<close>

lemma spacing_pos: "0 < spacing n"
proof (induction n rule: spacing.induct)
  case (1 n)
  then show ?case by (subst spacing.simps) auto
qed

lemma spacing_le: "0 < n \<Longrightarrow> spacing n \<le> n"
proof (induction n rule: spacing.induct)
  case (1 n)
  show ?case
  proof (cases "n < 9007199254740992")
    case True
    then show ?thesis using 1 by (subst spacing.simps) auto
  next
    case False
    then have "0 < n div 2" by simp
    then have "spacing (n div 2) \<le> n div 2" using 1 False by simp
    then show ?thesis using False by (subst spacing.simps) auto
  qed
qed

lemma spacing_small: "n < 9007199254740992 \<Longrightarrow> spacing n = 1"
  by (subst spacing.simps) simp

lemma round_to_one: "round_to (Suc 0) n = n"
  by (simp add: round_to_def)

lemma round_to_pos:
  assumes "0 < q" and "q \<le> n"
  shows "0 < round_to q n"
proof -
  have "0 < n div q" using assms by (simp add: div_greater_zero_iff)
  then show ?thesis using assms by (auto simp: round_to_def Let_def)
qed

lemma round_double_exact: "\<bar>x\<bar> < 9007199254740992 \<Longrightarrow> round_double x = x"
  by (auto simp: round_double_def spacing_small round_to_one)

lemma round_double_nonneg: "0 \<le> round_double x \<longleftrightarrow> 0 \<le> x"
proof (cases "x < 0")
  case True
  then have "0 < nat (- x)" by simp
  then have "0 < round_to (spacing (nat (- x))) (nat (- x))"
    using spacing_pos spacing_le by (intro round_to_pos) auto
  then show ?thesis using True by (simp add: round_double_def)
next
  case False
  then show ?thesis by (simp add: round_double_def)
qed

lemma big_difference: "round_double (- 99999999999999900) = - 99999999999999904"
proof -
  have "spacing 99999999999999900 = 16"
    by (simp add: spacing.simps)
  then show ?thesis
    by (simp add: round_double_def round_to_def Let_def)
qed

text \<open>Claim C9, as stated, fails: the score is an unvalidated number and the second
  segment is a binary64 difference, so for a score of \<open>10^17\<close> (a binary64 value) the
  segments are \<open>10^17\<close> and \<open>-99999999999999904\<close>, which sum to 96.\<close>

theorem chart_sum_counterexample:
  "map snd (chartData 100000000000000000) = [100000000000000000, - 99999999999999904]
   \<and> sum_list (map snd (chartData 100000000000000000)) = 96
   \<and> sum_list (map snd (ring_data (MRIScoreTab (example_response
         \<lparr> risk := \<lparr> score = 100000000000000000, level = High \<rparr> \<rparr>)))) \<noteq> 100"
  by (simp add: chartData_def js_minus_def big_difference MRIScoreTab_def Let_def)

text \<open>Claim C9, amended. The chart of the score view has exactly two segments, named
  Risk and Safe: the score, unclamped, and the binary64 difference of 100 and the score.
  For every integer score above \<open>100 - 2^53\<close> and below \<open>2^53\<close> the second segment is
  exactly 100 minus the score and the two sum to 100. For every integer score both
  segments are non-negative exactly when the score lies between 0 and 100.\<close>

theorem chart_segments:
  "map fst (ring_data (MRIScoreTab d)) = [js ''Risk'', js ''Safe'']
   \<and> ring_data (MRIScoreTab d) = chartData (score (risk d))
   \<and> length (chartData sc) = 2
   \<and> map snd (chartData sc) = [sc, js_minus 100 sc]
   \<and> (- 9007199254740992 + 100 < sc \<and> sc < 9007199254740992 \<longrightarrow>
         map snd (chartData sc) = [sc, 100 - sc] \<and> sum_list (map snd (chartData sc)) = 100)
   \<and> ((\<forall>v \<in> set (map snd (chartData sc)). 0 \<le> v) \<longleftrightarrow> 0 \<le> sc \<and> sc \<le> 100)"
proof -
  have a: "map fst (ring_data (MRIScoreTab d)) = [js ''Risk'', js ''Safe'']"
    "ring_data (MRIScoreTab d) = chartData (score (risk d))"
    "length (chartData sc) = 2" "map snd (chartData sc) = [sc, js_minus 100 sc]"
    by (simp_all add: MRIScoreTab_def chartData_def Let_def)
  have b: "map snd (chartData sc) = [sc, 100 - sc] \<and> sum_list (map snd (chartData sc)) = 100"
    if "- 9007199254740992 + 100 < sc \<and> sc < 9007199254740992"
  proof -
    from that have "\<bar>100 - sc\<bar> < 9007199254740992" by arith
    then have "js_minus 100 sc = 100 - sc"
      unfolding js_minus_def by (rule round_double_exact)
    then show ?thesis by (simp add: chartData_def)
  qed
  have c: "(\<forall>v \<in> set (map snd (chartData sc)). 0 \<le> v) \<longleftrightarrow> 0 \<le> sc \<and> sc \<le> 100"
    by (auto simp: chartData_def js_minus_def round_double_nonneg)
  from a b c show ?thesis by blast
qed

theorem chart_segments_witness:
  "map snd (chartData 150) = [150, - 50]
   \<and> sum_list (map snd (chartData 150)) = 100
   \<and> \<not> (\<forall>v \<in> set (map snd (chartData 150)). 0 \<le> v)
   \<and> map snd (ring_data (MRIScoreTab example_response)) = [40, 60]"
proof -
  note t = chart_segments [of example_response 150]
  have r: "- 9007199254740992 + 100 < (150::int) \<and> (150::int) < 9007199254740992" by simp
  have a: "map snd (chartData 150) = [150, - 50] \<and> sum_list (map snd (chartData 150)) = 100"
    using t [THEN conjunct2, THEN conjunct2, THEN conjunct2, THEN conjunct2, THEN conjunct1] r
    by simp
  have b: "\<not> (\<forall>v \<in> set (map snd (chartData 150)). 0 \<le> v)"
    using t [THEN conjunct2, THEN conjunct2, THEN conjunct2, THEN conjunct2, THEN conjunct2]
    by simp
  have s: "score (risk example_response) = 40" by (simp add: example_response_def)
  have r40: "- 9007199254740992 + 100 < (40::int) \<and> (40::int) < 9007199254740992" by simp
  have "map snd (chartData 40) = [40, 60]"
    using chart_segments [of example_response 40, THEN conjunct2, THEN conjunct2, THEN conjunct2,
        THEN conjunct2, THEN conjunct1] r40
    by simp
  then have c: "map snd (ring_data (MRIScoreTab example_response)) = [40, 60]"
    using t [THEN conjunct2, THEN conjunct1] by (simp only: s)
  from a b c show ?thesis by blast
qed

section \<open>The step card\<close>

text \<open>Claim C7. The step card shows the step's own \<open>short\<close> exactly when it is present
  and not whitespace-only (the empty string included), and the placeholder "short summary"
  otherwise; likewise the body shows the step's own \<open>text\<close>, or the placeholder "No
  detailed trace captured for this step.". The two placeholders differ.\<close>

theorem display_defaults:
  "shortText step =
     (case short step of
        Some s \<Rightarrow> if list_all is_ws s then js ''short summary'' else s
      | None \<Rightarrow> js ''short summary'')
   \<and> bodyText step =
     (case text' step of
        Some t \<Rightarrow> if list_all is_ws t then js ''No detailed trace captured for this step.'' else t
      | None \<Rightarrow> js ''No detailed trace captured for this step.'')
   \<and> card_short (StepCard step isLast expanded) = shortText step
   \<and> card_body (StepCard step isLast True) = Some (bodyText step)
   \<and> js ''short summary'' \<noteq> js ''No detailed trace captured for this step.''"
proof -
  have a: "shortText step =
     (case short step of
        Some s \<Rightarrow> if list_all is_ws s then js ''short summary'' else s
      | None \<Rightarrow> js ''short summary'')"
    by (auto simp: shortText_def trim_empty_iff split: option.splits)
  have b: "bodyText step =
     (case text' step of
        Some t \<Rightarrow> if list_all is_ws t then js ''No detailed trace captured for this step.'' else t
      | None \<Rightarrow> js ''No detailed trace captured for this step.'')"
    by (auto simp: bodyText_def trim_empty_iff split: option.splits)
  have c: "card_short (StepCard step isLast expanded) = shortText step"
    "card_body (StepCard step isLast True) = Some (bodyText step)"
    by (simp_all add: StepCard_def)
  have d: "js ''short summary'' \<noteq> js ''No detailed trace captured for this step.''"
    by (simp add: js_def)
  from a b c d show ?thesis by blast
qed

theorem display_defaults_witness:
  "shortText example_step = js ''Look it up''
   \<and> shortText blank_step = js ''short summary''
   \<and> shortText bare_step = js ''short summary''
   \<and> bodyText blank_step = js ''No detailed trace captured for this step.''
   \<and> bodyText example_step = js ''first line'' @ [10] @ js ''  '' @ [10] @ js ''third line''"
proof -
  have a: "shortText example_step = js ''Look it up''"
    using display_defaults [of example_step, THEN conjunct1]
    by (simp add: example_step_def js_def is_ws_def)
  have b: "shortText blank_step = js ''short summary''"
    using display_defaults [of blank_step, THEN conjunct1]
    by (simp add: blank_step_def js_def is_ws_def)
  have c: "shortText bare_step = js ''short summary''"
    using display_defaults [of bare_step, THEN conjunct1]
    by (simp add: bare_step_def)
  have d: "bodyText blank_step = js ''No detailed trace captured for this step.''"
    using display_defaults [of blank_step, THEN conjunct2, THEN conjunct1]
    by (simp add: blank_step_def)
  have e: "bodyText example_step = js ''first line'' @ [10] @ js ''  '' @ [10] @ js ''third line''"
    using display_defaults [of example_step, THEN conjunct2, THEN conjunct1]
    by (simp add: example_step_def js_def is_ws_def)
  from a b c d e show ?thesis by blast
qed

section \<open>Table rows in the markdown viewer\<close>

lemma bar_line_not_earlier:
  assumes "prefix (js ''|'') line"
  shows "\<not> prefix (js ''## '') line" "\<not> prefix (js ''# '') line" "trim line \<noteq> js ''---''"
    "\<not> prefix (js ''> '') line" "\<not> prefix (js ''- '') line" "\<not> numbered line"
proof -
  from assms obtain rest where l: "line = 124 # rest"
    by (cases line) (auto simp: js_def)
  have "\<not> is_ws 124" by (simp add: is_ws_def)
  then obtain r where "trim line = 124 # r"
    unfolding l using trim_Cons_nonws by blast
  then show "trim line \<noteq> js ''---''" by (simp add: js_def)
  show "\<not> prefix (js ''## '') line" "\<not> prefix (js ''# '') line"
    "\<not> prefix (js ''> '') line" "\<not> prefix (js ''- '') line"
    by (simp_all add: l js_def)
  show "\<not> numbered line" by (simp add: l numbered_def is_digit_def)
qed

lemma render_bar_line:
  assumes "prefix (js ''|'') line"
  shows "render_line lines idx line =
     (if sublist (js ''---'') line then None
      else Some (TableRow
             (js ''grid grid-cols-3 gap-6 py-3 text-[14px] '' @
               (if idx + 1 < length lines \<and> sublist (js ''---'') (lines ! (idx + 1))
                then js ''border-b border-gray-200 font-medium text-gray-900''
                else js ''text-gray-600 border-b border-gray-50''))
             (filter (\<lambda>c. trim c \<noteq> []) (split_on 124 line))))"
  using assms bar_line_not_earlier [OF assms]
  by (simp add: render_line_def Let_def)

lemma MarkdownViewer_nth:
  "i < length (split_on 10 content) \<Longrightarrow>
   MarkdownViewer content ! i = render_line (split_on 10 content) i (split_on 10 content ! i)"
  by (simp add: MarkdownViewer_def Let_def nth_enumerate_eq)

lemma MarkdownViewer_length: "length (MarkdownViewer content) = length (split_on 10 content)"
  by (simp add: MarkdownViewer_def Let_def)

lemma table_example_lines:
  "split_on 10 table_example = [js ''| Tag | Count |'', js ''|---|---|'', js ''| a |  | b | c | d |'']"
  by (simp add: table_example_def js_def split_on_Cons_case del: split_on_Cons)

text \<open>Claim C10. A line of the viewed content that starts with a vertical bar renders
  to nothing when it contains three hyphens in a row, and otherwise to one row holding
  the non-blank cells of the line (its pieces between bars that are not whitespace-only),
  always with the three-column grid class, however many cells there are.\<close>

theorem table_rows:
  assumes "i < length (split_on 10 content)"
    and "prefix (js ''|'') (split_on 10 content ! i)"
  shows "(sublist (js ''---'') (split_on 10 content ! i) \<longrightarrow> MarkdownViewer content ! i = None)
    \<and> (\<not> sublist (js ''---'') (split_on 10 content ! i) \<longrightarrow>
         (\<exists>cls. MarkdownViewer content ! i =
             Some (TableRow cls
               (filter (\<lambda>c. \<not> list_all is_ws c) (split_on 124 (split_on 10 content ! i))))
           \<and> prefix (js ''grid grid-cols-3 '') cls))"
proof -
  let ?line = "split_on 10 content ! i"
  have r: "MarkdownViewer content ! i = render_line (split_on 10 content) i ?line"
    using assms(1) by (rule MarkdownViewer_nth)
  have g: "prefix (js ''grid grid-cols-3 '') (js ''grid grid-cols-3 gap-6 py-3 text-[14px] '' @ x)" for x
    by (simp add: js_def)
  show ?thesis
    unfolding r render_bar_line [OF assms(2)]
    using g by (auto simp: trim_empty_iff)
qed

theorem table_rows_witness:
  "MarkdownViewer table_example ! 1 = None
   \<and> (\<exists>cls. MarkdownViewer table_example ! 2 =
         Some (TableRow cls [js '' a '', js '' b '', js '' c '', js '' d ''])
       \<and> prefix (js ''grid grid-cols-3 '') cls)
   \<and> (\<exists>cls. MarkdownViewer table_example ! 0 =
         Some (TableRow cls [js '' Tag '', js '' Count ''])
       \<and> prefix (js ''grid grid-cols-3 '') cls)"
proof -
  have a: "MarkdownViewer table_example ! 1 = None"
    using table_rows [of 1 table_example]
    by (simp add: table_example_lines) (simp add: js_def sublist_code)
  have cells2: "filter (\<lambda>c. \<not> list_all is_ws c) (split_on 124 (js ''| a |  | b | c | d |''))
      = [js '' a '', js '' b '', js '' c '', js '' d '']"
    by (simp add: js_def is_ws_def split_on_Cons_case del: split_on_Cons)
  have b: "\<exists>cls. MarkdownViewer table_example ! 2 =
         Some (TableRow cls [js '' a '', js '' b '', js '' c '', js '' d ''])
       \<and> prefix (js ''grid grid-cols-3 '') cls"
    using table_rows [of 2 table_example]
    by (simp add: table_example_lines cells2) (simp add: js_def sublist_code)
  have cells0: "filter (\<lambda>c. \<not> list_all is_ws c) (split_on 124 (js ''| Tag | Count |''))
      = [js '' Tag '', js '' Count '']"
    by (simp add: js_def is_ws_def split_on_Cons_case del: split_on_Cons)
  have c: "\<exists>cls. MarkdownViewer table_example ! 0 =
         Some (TableRow cls [js '' Tag '', js '' Count ''])
       \<and> prefix (js ''grid grid-cols-3 '') cls"
    using table_rows [of 0 table_example]
    by (simp add: table_example_lines cells0) (simp add: js_def sublist_code)
  from a b c show ?thesis by blast
qed

section \<open>The field the timeline and log view read\<close>

lemma timeline_steps_None: "timeline_steps d = None"
  by (simp add: timeline_steps_def get_prop_def)

text \<open>Claim C1 (the code departs from it). The declared response shape carries the
  steps in its field \<open>steps\<close>, and types.ts marks the name: "NOT timeline_steps
  (important)". The result view reads \<^verbatim>\<open>data.timeline_steps\<close>, which no response of the
  declared shape has, so for a response whose \<open>steps\<close> holds a step the timeline tab shows
  the "No execution trace" message and the log view shows the "no timeline" sentence.\<close>

theorem timeline_reads_undeclared_field:
  "steps example_response = [example_step]
   \<and> get_prop example_response ''steps'' = Some (VSteps [example_step])
   \<and> timeline_steps example_response = None
   \<and> ResultsContainer (Some example_response) 2 (\<lambda>i. False) =
       Some (TimelineView (NoTrace (js ''No execution trace available for this run yet.'')))
   \<and> ResultsContainer (Some example_response) 3 (\<lambda>i. False) =
       Some (LogView (MarkdownViewer no_timeline))"
  by (simp add: ResultsContainer_def timeline_steps_None TimelineTab_def
      generateTimelineMarkdown_def get_prop_def example_response_def)

section \<open>The lines of the timeline markdown\<close>

lemma show_nat_digits: "set (show_nat n) \<subseteq> {48..57}"
proof (induction n rule: show_nat.induct)
  case (1 n)
  show ?case
  proof (cases "n < 10")
    case True
    then show ?thesis by (subst show_nat.simps) auto
  next
    case False
    have "n mod 10 < 10" by simp
    then have "48 + n mod 10 \<in> {48..57}" by auto
    then show ?thesis using 1 False by (subst show_nat.simps) auto
  qed
qed

lemma show_int_no_newline: "10 \<notin> set (show_int i)"
  using show_nat_digits [of "nat i"] show_nat_digits [of "nat (- i)"]
  by (auto simp: show_int_def)

lemma type_str_no_newline: "10 \<notin> set (type_str k)"
  by (cases k) (simp_all add: js_def)

lemma type_str_nonempty: "type_str k \<noteq> []"
  by (cases k) (simp_all add: js_def)

lemma header_line_eq:
  "header_line idx step =
     js ''### Step '' @ show_int (if step_id step = 0 then int idx + 1 else step_id step)
       @ js '': `'' @ type_str (type' step) @ js ''`''
       @ (if or_empty (label step) \<noteq> [] then [32, 8212, 32] @ or_empty (label step) else [])"
  by (simp add: header_line_def Let_def type_str_nonempty)

lemma header_line_no_newline:
  "10 \<notin> set (or_empty (label step)) \<Longrightarrow> 10 \<notin> set (header_line idx step)"
  by (simp add: header_line_eq show_int_no_newline type_str_no_newline js_def)

lemma join_no_newline:
  "\<forall>x\<in>set xs. 10 \<notin> set x \<Longrightarrow> 10 \<notin> set sep \<Longrightarrow> 10 \<notin> set (join sep xs)"
  by (induction sep xs rule: join.induct) auto

lemma short_lines_no_newline:
  "10 \<notin> set (or_empty (short step)) \<Longrightarrow> \<forall>l\<in>set (short_lines step). 10 \<notin> set l"
  by (auto simp: short_lines_def Let_def js_def)

lemma quote_line_no_newline: "10 \<notin> set l \<Longrightarrow> 10 \<notin> set (quote_line l)"
  by (simp add: quote_line_def js_def)

lemma text_lines_no_newline: "\<forall>l\<in>set (text_lines step). 10 \<notin> set l"
  by (auto simp: text_lines_def Let_def js_def quote_line_no_newline dest: split_on_pieces)

lemma tags_lines_no_newline:
  assumes "list_all (\<lambda>t. 10 \<notin> set t) (or_empty (tags step))"
  shows "\<forall>l\<in>set (tags_lines step). 10 \<notin> set l"
proof -
  have "10 \<notin> set (join (js '', '') (map (\<lambda>t. [96] @ t @ [96]) (or_empty (tags step))))"
    using assms by (intro join_no_newline) (auto simp: list_all_iff js_def)
  then show ?thesis by (auto simp: tags_lines_def Let_def js_def)
qed

lemma step_lines_no_newline:
  assumes "one_line_fields step"
  shows "\<forall>l\<in>set (step_lines idx step). 10 \<notin> set l"
proof
  fix l
  assume "l \<in> set (step_lines idx step)"
  then consider "l = header_line idx step" | "l = []" | "l \<in> set (short_lines step)"
    | "l \<in> set (text_lines step)" | "l \<in> set (tags_lines step)" | "l = js ''---''"
    by (auto simp: step_lines_def)
  then show "10 \<notin> set l"
  proof cases
    case 1
    then show ?thesis
      using assms header_line_no_newline [of step idx] by (simp add: one_line_fields_def)
  next
    case 2
    then show ?thesis by simp
  next
    case 3
    then show ?thesis
      using assms short_lines_no_newline [of step] by (auto simp: one_line_fields_def)
  next
    case 4
    then show ?thesis using text_lines_no_newline by blast
  next
    case 5
    then show ?thesis
      using assms tags_lines_no_newline [of step] by (auto simp: one_line_fields_def)
  next
    case 6
    then show ?thesis by (simp add: js_def)
  qed
qed

lemma timeline_lines_no_newline:
  assumes "list_all one_line_fields ss"
  shows "\<forall>l\<in>set (timeline_lines ss). 10 \<notin> set l"
proof -
  have "\<forall>l\<in>set preamble. 10 \<notin> set l" by (simp add: preamble_def js_def)
  moreover have "\<forall>l\<in>set (step_lines idx step). 10 \<notin> set l" if "(idx, step) \<in> set (enumerate 0 ss)"
    for idx step
  proof -
    from that have "step \<in> set ss" by (auto simp: in_set_enumerate_eq)
    then have "one_line_fields step" using assms by (simp add: list_all_iff)
    then show ?thesis by (rule step_lines_no_newline)
  qed
  ultimately show ?thesis by (auto simp: timeline_lines_def)
qed

lemma timeline_lines_nonempty: "timeline_lines ss \<noteq> []"
  by (simp add: timeline_lines_def preamble_def)

lemma markdown_lines_concat:
  assumes "ss \<noteq> []"
  shows "split_on 10 (generateTimelineMarkdown (Some ss)) =
         concat (map (split_on 10) (timeline_lines ss))"
proof -
  have "generateTimelineMarkdown (Some ss) = join [10] (timeline_lines ss)"
    using assms by (simp add: generateTimelineMarkdown_def)
  then show ?thesis
    by (simp only: split_on_join [OF timeline_lines_nonempty])
qed

lemma markdown_lines:
  assumes "ss \<noteq> []" and "list_all one_line_fields ss"
  shows "split_on 10 (generateTimelineMarkdown (Some ss)) = timeline_lines ss"
  using markdown_lines_concat [OF assms(1)] timeline_lines_no_newline [OF assms(2)]
  by (simp add: concat_split_single)

section \<open>Step headings and rules\<close>

lemma body_first_char:
  assumes "l \<in> set (short_lines step) \<union> set (text_lines step) \<union> set (tags_lines step)"
  shows "l = [] \<or> (\<exists>r. l = 42 # r) \<or> (\<exists>r. l = 62 # r)"
  using assms
  by (auto simp: short_lines_def text_lines_def tags_lines_def quote_line_def Let_def js_def
      split: if_splits)

lemma not_rule_first_char: "\<not> is_ws c \<Longrightarrow> c \<noteq> 45 \<Longrightarrow> \<not> is_rule (c # cs)"
  using trim_Cons_nonws [of c cs] by (auto simp: is_rule_def js_def)

lemma not_rule_empty: "\<not> is_rule []"
  by (simp add: is_rule_def trim_def js_def)

lemma is_rule_rule: "is_rule (js ''---'')"
  by (simp add: is_rule_def trim_def js_def is_ws_def)

lemma not_heading_rule: "\<not> is_step_heading (js ''---'')"
  by (simp add: is_step_heading_def js_def)

lemma is_step_heading_header: "is_step_heading (header_line idx step)"
  by (simp add: is_step_heading_def header_line_eq)

lemma body_plain:
  assumes "l \<in> set (short_lines step) \<union> set (text_lines step) \<union> set (tags_lines step)"
  shows "\<not> is_step_heading l \<and> \<not> is_rule l"
proof -
  from body_first_char [OF assms]
  consider "l = []" | r where "l = 42 # r" | r where "l = 62 # r" by blast
  then show ?thesis
  proof cases
    case 1
    then show ?thesis by (simp add: not_rule_empty is_step_heading_def js_def)
  next
    case 2
    then show ?thesis
      by (simp add: not_rule_first_char is_ws_def is_step_heading_def js_def)
  next
    case 3
    then show ?thesis
      by (simp add: not_rule_first_char is_ws_def is_step_heading_def js_def)
  qed
qed

lemma filter_body:
  assumes "\<And>l. Q l \<Longrightarrow> is_step_heading l \<or> is_rule l"
  shows "filter Q (short_lines step) = []" "filter Q (text_lines step) = []"
    "filter Q (tags_lines step) = []"
  using assms body_plain [of _ step] by (auto simp: filter_empty_conv)

lemma step_lines_split:
  "step_lines idx step =
     header_line idx step # [] # (short_lines step @ text_lines step @ tags_lines step) @ [js ''---'']"
  by (simp add: step_lines_def)

lemma filter_landmarks_step:
  "filter (\<lambda>l. is_step_heading l \<or> is_rule l) (step_lines idx step) =
     [header_line idx step, js ''---'']"
  unfolding step_lines_split
  by (simp add: filter_body is_step_heading_header is_rule_rule not_rule_empty
      is_step_heading_def [of "[]"] js_def [of "''### Step ''"] del: append_assoc)

lemma filter_headings_step:
  "filter is_step_heading (step_lines idx step) = [header_line idx step]"
  unfolding step_lines_split
  by (simp add: filter_body is_step_heading_header not_heading_rule
      is_step_heading_def [of "[]"] js_def [of "''### Step ''"] del: append_assoc)

lemma filter_landmarks_preamble:
  "filter (\<lambda>l. is_step_heading l \<or> is_rule l) preamble = [js ''---'']"
proof -
  have "\<not> is_rule (js ''## '' @ [55357, 56658] @ js '' Agent Timeline'')"
    by (simp add: js_def not_rule_first_char is_ws_def)
  moreover have "\<not> is_rule (js ''Each block below is one step in the agent run: thoughts, tool calls, memory ops, and the final answer.'')"
    by (simp add: js_def not_rule_first_char is_ws_def)
  ultimately show ?thesis
    by (simp add: preamble_def is_rule_rule not_rule_empty is_step_heading_def)
      (simp add: js_def)
qed

lemma filter_headings_preamble: "filter is_step_heading preamble = []"
  by (simp add: preamble_def is_step_heading_def js_def)

lemma case_prod_comp_filter:
  "map (filter Q \<circ> (\<lambda>(idx, step). step_lines idx step)) xs =
   map (\<lambda>(idx, step). filter Q (step_lines idx step)) xs"
  by (induction xs) auto

lemma filter_landmarks_timeline:
  "filter (\<lambda>l. is_step_heading l \<or> is_rule l) (timeline_lines ss) =
     js ''---'' # concat (map (\<lambda>(idx, step). [header_line idx step, js ''---'']) (enumerate 0 ss))"
  by (simp add: timeline_lines_def filter_concat filter_landmarks_preamble
      case_prod_comp_filter filter_landmarks_step)

lemma filter_headings_timeline:
  "filter is_step_heading (timeline_lines ss) =
     map (\<lambda>(idx, step). header_line idx step) (enumerate 0 ss)"
proof -
  have "concat (map (\<lambda>(idx, step). [header_line idx step]) xs) =
        map (\<lambda>(idx, step). header_line idx step) xs" for xs :: "(nat \<times> TimelineStep) list"
    by (induction xs) auto
  then show ?thesis
    by (simp add: timeline_lines_def filter_concat filter_headings_preamble
      case_prod_comp_filter filter_headings_step)
qed

lemma one_line_examples: "list_all one_line_fields [example_step, bare_step]"
  by (simp add: one_line_fields_def example_step_def bare_step_def or_empty_def js_def)

lemma show_int_small: "show_int 1 = js ''1''" "show_int 2 = js ''2''" "show_int 7 = js ''7''"
  by (simp_all add: show_int_def show_nat.simps js_def)

lemma header_examples:
  "header_line 0 example_step = js ''### Step 7: `tool_call` '' @ [8212] @ js '' search''"
  "header_line 1 bare_step = js ''### Step 2: `thought`''"
  "header_line 0 bare_step = js ''### Step 1: `thought`''"
  by (simp_all add: header_line_eq example_step_def bare_step_def or_empty_def show_int_small)
    (simp_all add: js_def)

lemma preamble_single_lines: "concat (map (split_on 10) preamble) = preamble"
  by (rule concat_split_single) (simp add: preamble_def js_def)

lemma injected_step_lines:
  "step_lines 0 injected_step =
     [js ''### Step 1: `thought` '' @ [8212] @ js '' x'' @ [10] @ js ''### Step 9: `thought`'',
      [], js ''---'']"
  by (simp add: step_lines_def header_line_eq short_lines_def text_lines_def tags_lines_def
      injected_step_def or_empty_def show_int_small)
    (simp add: js_def)

lemma injected_header_split:
  "split_on 10
     (js ''### Step 1: `thought` '' @ [8212] @ js '' x'' @ [10] @ js ''### Step 9: `thought`'') =
   [js ''### Step 1: `thought` '' @ [8212] @ js '' x'', js ''### Step 9: `thought`'']"
  by (simp add: js_def split_on_Cons_case del: split_on_Cons)

lemma injected_markdown_headings:
  "filter is_step_heading (split_on 10 (generateTimelineMarkdown (Some [injected_step]))) =
     [js ''### Step 1: `thought` '' @ [8212] @ js '' x'', js ''### Step 9: `thought`'']"
proof -
  have "split_on 10 (generateTimelineMarkdown (Some [injected_step])) =
        concat (map (split_on 10) (timeline_lines [injected_step]))"
    by (rule markdown_lines_concat) simp
  also have "\<dots> = preamble @ concat (map (split_on 10) (step_lines 0 injected_step))"
    by (simp add: timeline_lines_def preamble_single_lines enumerate_eq_zip)
  also have "\<dots> = preamble @
      [js ''### Step 1: `thought` '' @ [8212] @ js '' x'', js ''### Step 9: `thought`'',
       [], js ''---'']"
    by (simp only: injected_step_lines injected_header_split list.map concat.simps)
      (simp add: js_def)
  finally show ?thesis
    by (simp add: filter_headings_preamble) (simp add: is_step_heading_def js_def)
qed

lemma bare_markdown_headings:
  "filter is_step_heading (split_on 10 (generateTimelineMarkdown (Some [bare_step]))) =
     [js ''### Step 1: `thought`'']"
proof -
  have "list_all one_line_fields [bare_step]"
    using one_line_examples by simp
  then have "split_on 10 (generateTimelineMarkdown (Some [bare_step])) = timeline_lines [bare_step]"
    by (intro markdown_lines) simp_all
  then show ?thesis
    by (simp add: filter_headings_timeline enumerate_eq_zip header_examples)
qed

text \<open>Claim C2, as stated, fails in two places. A label that holds a line feed puts a
  second heading line into the section of its step, so the number of heading lines is
  not the number of steps; and a step whose \<open>step_id\<close> is 0 gets a heading with its
  1-based position, which does not contain its \<open>step_id\<close>.\<close>

theorem one_heading_per_step_counterexample:
  "length (filter is_step_heading
       (split_on 10 (generateTimelineMarkdown (Some [injected_step])))) \<noteq> length [injected_step]
   \<and> step_id bare_step = 0
   \<and> filter is_step_heading (split_on 10 (generateTimelineMarkdown (Some [bare_step]))) =
       [js ''### Step 1: `thought`'']
   \<and> \<not> sublist (show_int (step_id bare_step)) (js ''### Step 1: `thought`'')"
proof -
  have a: "length (filter is_step_heading
       (split_on 10 (generateTimelineMarkdown (Some [injected_step])))) \<noteq> length [injected_step]"
    by (simp add: injected_markdown_headings)
  have b: "step_id bare_step = 0" by (simp add: bare_step_def)
  have "show_int 0 = js ''0''" by (simp add: show_int_def show_nat.simps js_def)
  then have c: "\<not> sublist (show_int (step_id bare_step)) (js ''### Step 1: `thought`'')"
    by (simp add: b) (simp add: js_def sublist_code)
  from a b c bare_markdown_headings show ?thesis by blast
qed

text \<open>Claim C2, amended. For a non-empty step sequence whose labels, summaries and tags
  hold no line feed, the lines of the timeline markdown that are step headings are, in
  order, exactly one per step; the heading of a step is "### Step", its \<open>step_id\<close> (or its
  1-based position when the \<open>step_id\<close> is 0), a colon, its type between backticks, and
  " - label" with an em dash when the label is not empty. Headings and rule lines
  alternate: one rule before the first heading and one after each section, so that
  consecutive sections are separated by a rule.\<close>

theorem timeline_sections:
  assumes "ss \<noteq> []" and "list_all one_line_fields ss"
  shows "filter (\<lambda>l. is_step_heading l \<or> is_rule l)
           (split_on 10 (generateTimelineMarkdown (Some ss))) =
         js ''---'' #
           concat (map (\<lambda>(idx, step). [header_line idx step, js ''---'']) (enumerate 0 ss))
    \<and> filter is_step_heading (split_on 10 (generateTimelineMarkdown (Some ss))) =
         map (\<lambda>(idx, step). header_line idx step) (enumerate 0 ss)
    \<and> length (filter is_step_heading (split_on 10 (generateTimelineMarkdown (Some ss)))) =
         length ss
    \<and> (\<forall>(idx, step)\<in>set (enumerate 0 ss).
         header_line idx step =
           js ''### Step '' @ show_int (if step_id step = 0 then int idx + 1 else step_id step)
             @ js '': `'' @ type_str (type' step) @ js ''`''
             @ (if or_empty (label step) \<noteq> [] then [32, 8212, 32] @ or_empty (label step)
                else []))"
proof -
  have l: "split_on 10 (generateTimelineMarkdown (Some ss)) = timeline_lines ss"
    using assms by (rule markdown_lines)
  have a: "filter (\<lambda>l. is_step_heading l \<or> is_rule l)
           (split_on 10 (generateTimelineMarkdown (Some ss))) =
         js ''---'' #
           concat (map (\<lambda>(idx, step). [header_line idx step, js ''---'']) (enumerate 0 ss))"
    unfolding l by (rule filter_landmarks_timeline)
  have b: "filter is_step_heading (split_on 10 (generateTimelineMarkdown (Some ss))) =
         map (\<lambda>(idx, step). header_line idx step) (enumerate 0 ss)"
    unfolding l by (rule filter_headings_timeline)
  have c: "length (filter is_step_heading (split_on 10 (generateTimelineMarkdown (Some ss)))) =
         length ss"
    unfolding b by simp
  have d: "\<forall>(idx, step)\<in>set (enumerate 0 ss).
         header_line idx step =
           js ''### Step '' @ show_int (if step_id step = 0 then int idx + 1 else step_id step)
             @ js '': `'' @ type_str (type' step) @ js ''`''
             @ (if or_empty (label step) \<noteq> [] then [32, 8212, 32] @ or_empty (label step)
                else [])"
    using header_line_eq by blast
  from a b c d show ?thesis by blast
qed

theorem timeline_sections_witness:
  "filter is_step_heading
     (split_on 10 (generateTimelineMarkdown (Some [example_step, bare_step]))) =
   [js ''### Step 7: `tool_call` '' @ [8212] @ js '' search'', js ''### Step 2: `thought`'']
   \<and> filter (\<lambda>l. is_step_heading l \<or> is_rule l)
       (split_on 10 (generateTimelineMarkdown (Some [example_step, bare_step]))) =
     [js ''---'', js ''### Step 7: `tool_call` '' @ [8212] @ js '' search'', js ''---'',
      js ''### Step 2: `thought`'', js ''---'']"
proof -
  have ne: "[example_step, bare_step] \<noteq> []" by simp
  have e: "enumerate 0 [example_step, bare_step] = [(0, example_step), (1, bare_step)]"
    by (simp add: enumerate_eq_zip upt_rec)
  note t = timeline_sections [OF ne one_line_examples]
  have a: "filter is_step_heading
     (split_on 10 (generateTimelineMarkdown (Some [example_step, bare_step]))) =
   [js ''### Step 7: `tool_call` '' @ [8212] @ js '' search'', js ''### Step 2: `thought`'']"
    using t [THEN conjunct2, THEN conjunct1] by (simp only: e header_examples list.map prod.case)
  have b: "filter (\<lambda>l. is_step_heading l \<or> is_rule l)
       (split_on 10 (generateTimelineMarkdown (Some [example_step, bare_step]))) =
     [js ''---'', js ''### Step 7: `tool_call` '' @ [8212] @ js '' search'', js ''---'',
      js ''### Step 2: `thought`'', js ''---'']"
    using t [THEN conjunct1]
    by (simp only: e header_examples list.map prod.case concat.simps append.simps)
  from a b show ?thesis by blast
qed

section \<open>The blockquote of a step's text\<close>

lemma quote_line_eq:
  "quote_line l = (if list_all is_ws l then js ''>'' else js ''> '' @ l)"
  by (simp add: quote_line_def trim_empty_iff)

lemma text_lines_eq:
  assumes "text' step = Some t" and "t \<noteq> []"
  shows "text_lines step =
     [js ''**Detail / excerpt:**'', []]
       @ map (\<lambda>l. if list_all is_ws l then js ''>'' else js ''> '' @ l) (split_on 10 t) @ [[]]"
  using assms by (simp add: text_lines_def or_empty_def Let_def quote_line_eq)

lemma text_lines_single_lines: "concat (map (split_on 10) (text_lines step)) = text_lines step"
  by (rule concat_split_single) (rule text_lines_no_newline)

lemma step_lines_around_text:
  "\<exists>A B. step_lines idx step = A @ text_lines step @ B"
proof -
  have "step_lines idx step =
      ([header_line idx step, []] @ short_lines step) @ text_lines step
        @ (tags_lines step @ [js ''---''])"
    by (simp add: step_lines_def)
  then show ?thesis by blast
qed

lemma timeline_lines_around_text:
  assumes "step \<in> set ss"
  shows "\<exists>A B. timeline_lines ss = A @ text_lines step @ B"
proof -
  from assms obtain idx where "idx < length ss" and "ss ! idx = step"
    by (auto simp: in_set_conv_nth)
  then have "(idx, step) \<in> set (enumerate 0 ss)"
    by (simp add: in_set_enumerate_eq)
  then obtain xs ys where e: "enumerate 0 ss = xs @ (idx, step) # ys"
    by (meson split_list)
  obtain A B where s: "step_lines idx step = A @ text_lines step @ B"
    using step_lines_around_text by blast
  have "timeline_lines ss =
      (preamble @ concat (map (\<lambda>(idx, step). step_lines idx step) xs) @ A) @ text_lines step
        @ (B @ concat (map (\<lambda>(idx, step). step_lines idx step) ys))"
    by (simp add: timeline_lines_def e s)
  then show ?thesis by blast
qed

text \<open>Claim C6. For every step of the sequence whose \<open>text\<close> is a non-empty string, the
  lines of the timeline markdown hold, in a row, the "Detail / excerpt" label, an empty
  line, then one line per line of the text, in order (a whitespace-only line as a bare
  ">" and any other line behind "> "), and an empty line.\<close>

theorem text_blockquote:
  assumes "step \<in> set ss" and "text' step = Some t" and "t \<noteq> []"
  shows "sublist
     ([js ''**Detail / excerpt:**'', []]
        @ map (\<lambda>l. if list_all is_ws l then js ''>'' else js ''> '' @ l) (split_on 10 t) @ [[]])
     (split_on 10 (generateTimelineMarkdown (Some ss)))"
proof -
  from assms(1) have ne: "ss \<noteq> []" by auto
  obtain A B where ab: "timeline_lines ss = A @ text_lines step @ B"
    using timeline_lines_around_text [OF assms(1)] by blast
  have "split_on 10 (generateTimelineMarkdown (Some ss)) =
        concat (map (split_on 10) (timeline_lines ss))"
    using ne by (rule markdown_lines_concat)
  also have "\<dots> = concat (map (split_on 10) A) @ text_lines step @ concat (map (split_on 10) B)"
    by (simp add: ab text_lines_single_lines)
  finally have "sublist (text_lines step) (split_on 10 (generateTimelineMarkdown (Some ss)))"
    by (simp only: sublist_appendI)
  then show ?thesis by (simp only: text_lines_eq [OF assms(2,3)])
qed

theorem text_blockquote_witness:
  "sublist
     [js ''**Detail / excerpt:**'', [], js ''> first line'', js ''>'', js ''> third line'', []]
     (split_on 10 (generateTimelineMarkdown (Some [bare_step, example_step])))"
proof -
  have m: "example_step \<in> set [bare_step, example_step]" by simp
  have t: "text' example_step = Some (js ''first line'' @ [10] @ js ''  '' @ [10] @ js ''third line'')"
    by (simp add: example_step_def)
  have n: "js ''first line'' @ [10] @ js ''  '' @ [10] @ js ''third line'' \<noteq> []"
    by (simp add: js_def)
  have s: "split_on 10 (js ''first line'' @ [10] @ js ''  '' @ [10] @ js ''third line'') =
      [js ''first line'', js ''  '', js ''third line'']"
    by (simp add: js_def split_on_Cons_case del: split_on_Cons)
  have q: "map (\<lambda>l. if list_all is_ws l then js ''>'' else js ''> '' @ l)
        [js ''first line'', js ''  '', js ''third line''] =
      [js ''> first line'', js ''>'', js ''> third line'']"
    by (simp add: js_def is_ws_def)
  show ?thesis
    using text_blockquote [OF m t n] unfolding s q by simp
qed

section \<open>The markdown constructs of the timeline\<close>















end
